theory Spec2Isabelle
  imports Main "HOL-Library.Char_ord" "HOL-Library.List_Lexorder"
begin

section \<open>Exceptions\<close>

text \<open>
  The exceptions the transfer pipeline raises or handles.  \<open>HttpError\<close> is the Drive
  client's API error, \<open>JSONDecodeError\<close> is raised by \<open>json.load\<close> on content that is not
  JSON, \<open>NameError\<close> is Python's error for a name that is bound nowhere,
  \<open>AttributeError\<close> its error for an attribute an object does not have, \<open>OSError\<close> covers
  the local file system, \<open>TelegramError\<close> the delivery channel, \<open>RefreshError\<close> a failed
  token refresh.  \<open>ConnectionError\<close> and \<open>IOError\<close> are the two errors the \<open>raise\<close>
  statements of \<open>download_gdrive_file\<close> name.

  An \<open>HttpError\<close> of the Drive client has the attributes \<open>resp\<close>, \<open>content\<close>, \<open>uri\<close>,
  \<open>reason\<close> and \<open>error_details\<close>, and none called \<open>details\<close>.  The two \<open>except HttpError\<close>
  clauses of the program read \<open>error.details\<close> while they build a text, so what leaves
  such a clause is the \<open>AttributeError\<close> of that read.
\<close>

datatype exn =
    HttpError
  | JSONDecodeError
  | NameError string
  | AttributeError
  | OSError
  | TelegramError
  | RefreshError
  | ConnectionError
  | IOError

section \<open>Remote tree enumeration (gdrive\_handler.py)\<close>

text \<open>
  The remote store as the Drive API shows it: every node has an id, a name, a MIME type
  and, for binary files only, a size.  \<open>r_listing\<close> is what listing the node's children
  yields: \<open>None\<close> when the request fails with an \<open>HttpError\<close>, otherwise the children in no
  particular order.
\<close>

datatype remote =
  Remote (r_id: string) (r_name: string) (r_mimeType: string) (r_size: "nat option")
         (r_listing: "remote list option")

definition folder_mime :: string where
  "folder_mime = ''application/vnd.google-apps.folder''"

text \<open>
  The service's answer to \<open>orderBy='folder,name'\<close>: folders first, then by name.
\<close>

definition drive_order :: "remote list \<Rightarrow> remote list" where
  "drive_order cs =
     sort_key r_name (filter (\<lambda>c. r_mimeType c = folder_mime) cs) @
     sort_key r_name (filter (\<lambda>c. r_mimeType c \<noteq> folder_mime) cs)"

text \<open>
  The service answers a listing in pages of at most \<open>n\<close> entries; the last page carries no
  \<open>nextPageToken\<close>.  An empty folder is one empty page.
\<close>

function chop :: "nat \<Rightarrow> 'a list \<Rightarrow> 'a list list" where
  "chop n xs = (if n = 0 \<or> length xs \<le> n then [xs] else take n xs # chop n (drop n xs))"
  by pat_completeness auto
termination
  by (relation "measure (\<lambda>(n, xs). length xs)") auto

declare chop.simps [simp del]

record drive =
  lookup :: "string \<Rightarrow> remote option"
  page_size :: nat

record item_details =
  item_id :: string
  item_name :: string
  item_mimeType :: string
  item_size :: nat
  item_path :: string
  is_folder :: bool

text \<open>\<open>f"{current_path}/{item['name']}" if current_path else item['name']\<close>\<close>

definition join_path :: "string \<Rightarrow> string \<Rightarrow> string" where
  "join_path current_path nm = (if current_path \<noteq> [] then current_path @ ''/'' @ nm else nm)"

definition details_of :: "remote \<Rightarrow> string \<Rightarrow> item_details" where
  "details_of item current_path =
     \<lparr> item_id = r_id item,
       item_name = r_name item,
       item_mimeType = r_mimeType item,
       item_size = (case r_size item of None \<Rightarrow> 0 | Some n \<Rightarrow> n),
       item_path = join_path current_path (r_name item),
       is_folder = (r_mimeType item = folder_mime) \<rparr>"

text \<open>The number of nodes of a remote tree; the walk below terminates by it.\<close>

fun weight :: "remote \<Rightarrow> nat" where
  "weight (Remote i n m s l) =
     Suc (case l of None \<Rightarrow> 0 | Some cs \<Rightarrow> sum_list (map weight cs))"

lemma sum_weight_insort_key:
  "sum_list (map weight (insort_key f x xs)) = weight x + sum_list (map weight xs)"
  by (induction xs) auto

lemma sum_weight_sort_key:
  "sum_list (map weight (sort_key f xs)) = sum_list (map weight xs)"
  by (induction xs) (auto simp: sum_weight_insort_key)

lemma sum_weight_filter:
  "sum_list (map weight (filter P xs)) + sum_list (map weight (filter (\<lambda>x. \<not> P x) xs))
     = sum_list (map weight xs)"
  by (induction xs) auto

lemma sum_weight_drive_order:
  "sum_list (map weight (drive_order cs)) = sum_list (map weight cs)"
  unfolding drive_order_def
  by (simp add: sum_weight_sort_key sum_weight_filter)

lemma concat_chop: "concat (chop n xs) = xs"
proof (induction n xs rule: chop.induct)
  case (1 n xs)
  show ?case
  proof (cases "n = 0 \<or> length xs \<le> n")
    case True
    then show ?thesis by (subst chop.simps) simp
  next
    case False
    with 1 have "concat (chop n (drop n xs)) = drop n xs" by simp
    with False show ?thesis by (subst chop.simps) simp
  qed
qed

lemma weight_pos: "0 < weight r"
  by (cases r) simp

lemma weight_listing:
  "r_listing folder = Some cs \<Longrightarrow> sum_list (map weight cs) < weight folder"
  by (cases folder) simp

text \<open>
  \<open>list_files_in_folder_recursive\<close>: the \<open>while True\<close> loop over the pages of one
  listing (\<open>pages_loop\<close>), the \<open>for\<close> loop over the entries of a page (\<open>items_loop\<close>),
  and the recursive call for an entry that is a folder.  The folder is given as its node
  in the remote tree.  When a listing fails with an \<open>HttpError\<close>, the \<open>except HttpError\<close>
  clause logs a text that reads \<open>error.details\<close>, so an \<open>AttributeError\<close> leaves the
  function; in a folder further up it passes through \<open>except Exception\<close>, which
  re-raises it.
\<close>

function list_files_in_folder_recursive :: "nat \<Rightarrow> remote \<Rightarrow> string \<Rightarrow> exn + item_details list"
  and pages_loop :: "nat \<Rightarrow> remote list list \<Rightarrow> string \<Rightarrow> exn + item_details list"
  and items_loop :: "nat \<Rightarrow> remote list \<Rightarrow> string \<Rightarrow> exn + item_details list"
where
  "list_files_in_folder_recursive ps folder current_path =
     (case r_listing folder of
        None \<Rightarrow> Inl AttributeError
      | Some cs \<Rightarrow> pages_loop ps (chop ps (drive_order cs)) current_path)"
| "pages_loop ps [] current_path = Inr []"
| "pages_loop ps (page # rest) current_path =
     (case items_loop ps page current_path of
        Inl e \<Rightarrow> Inl e
      | Inr found \<Rightarrow>
          (case pages_loop ps rest current_path of
             Inl e \<Rightarrow> Inl e
           | Inr later \<Rightarrow> Inr (found @ later)))"
| "items_loop ps [] current_path = Inr []"
| "items_loop ps (item # rest) current_path =
     (case (if r_mimeType item = folder_mime
            then list_files_in_folder_recursive ps item (join_path current_path (r_name item))
            else Inr []) of
        Inl e \<Rightarrow> Inl e
      | Inr sub_items \<Rightarrow>
          (case items_loop ps rest current_path of
             Inl e \<Rightarrow> Inl e
           | Inr later \<Rightarrow> Inr (details_of item current_path # sub_items @ later)))"
  by pat_completeness auto
termination
proof (relation "measures
    [\<lambda>a. case a of
        Inl (ps, folder, p) \<Rightarrow> weight folder
      | Inr (Inl (ps, pages, p)) \<Rightarrow> sum_list (map weight (concat pages))
      | Inr (Inr (ps, items, p)) \<Rightarrow> sum_list (map weight items),
     \<lambda>a. case a of
        Inl (ps, folder, p) \<Rightarrow> 0
      | Inr (Inl (ps, pages, p)) \<Rightarrow> 2
      | Inr (Inr (ps, items, p)) \<Rightarrow> 1,
     \<lambda>a. case a of
        Inl (ps, folder, p) \<Rightarrow> 0
      | Inr (Inl (ps, pages, p)) \<Rightarrow> length pages
      | Inr (Inr (ps, items, p)) \<Rightarrow> length items]", goal_cases)
  case 1
  show ?case by simp
next
  case (2 ps folder current_path cs)
  then show ?case
    by (simp add: concat_chop sum_weight_drive_order weight_listing)
next
  case (3 ps page rest current_path)
  show ?case by auto
next
  case (4 ps page rest current_path found)
  show ?case by auto
next
  case (5 ps item rest current_path)
  show ?case by auto
next
  case (6 ps item rest current_path sub_items)
  show ?case using weight_pos [of item] by auto
qed


text \<open>
  \<open>get_file_id_from_link\<close> searches the link with two regular expressions, each an
  alternation of literal prefixes followed by a non-empty run of \<open>[a-zA-Z0-9_-]\<close>.
  \<open>re_search\<close> is \<open>re.search\<close> for patterns of that shape: the leftmost position where an
  alternative matches, alternatives tried in order, the run taken greedily.
\<close>

definition id_char :: "char \<Rightarrow> bool" where
  "id_char c \<longleftrightarrow>
     c \<in> set ''abcdefghijklmnopqrstuvwxyzABCDEFGHIJKLMNOPQRSTUVWXYZ0123456789_-''"

fun match_at :: "string list \<Rightarrow> string \<Rightarrow> string option" where
  "match_at [] s = None"
| "match_at (p # ps) s =
     (if take (length p) s = p \<and> takeWhile id_char (drop (length p) s) \<noteq> []
      then Some (takeWhile id_char (drop (length p) s))
      else match_at ps s)"

fun re_search :: "string list \<Rightarrow> string \<Rightarrow> string option" where
  "re_search ps [] = None"
| "re_search ps (c # cs) =
     (case match_at ps (c # cs) of
        Some g \<Rightarrow> Some g
      | None \<Rightarrow> re_search ps cs)"

definition get_file_id_from_link :: "string \<Rightarrow> string option" where
  "get_file_id_from_link drive_link =
     (case re_search [''/file/d/'', ''id=''] drive_link of
        Some g \<Rightarrow> Some g
      | None \<Rightarrow> re_search [''/drive/folders/'', ''folders/''] drive_link)"

text \<open>
  \<open>get_drive_items_from_link\<close> returns a pair of which one component is \<open>None\<close>: the
  files to process, or an error message.  \<open>get_file_metadata\<close> turns every failure into
  \<open>None\<close>; it is the \<open>lookup\<close> of the store.
\<close>

datatype link_error =
    InvalidLinkFormat
  | MetadataUnavailable
  | FolderError string exn

definition get_drive_items_from_link :: "drive \<Rightarrow> string \<Rightarrow> link_error + item_details list" where
  "get_drive_items_from_link d drive_link =
     (case get_file_id_from_link drive_link of
        None \<Rightarrow> Inl InvalidLinkFormat
      | Some file_id \<Rightarrow>
          (case lookup d file_id of
             None \<Rightarrow> Inl MetadataUnavailable
           | Some initial_metadata \<Rightarrow>
               if r_mimeType initial_metadata = folder_mime
               then (case list_files_in_folder_recursive (page_size d) initial_metadata
                            (r_name initial_metadata) of
                       Inl e \<Rightarrow> Inl (FolderError (r_name initial_metadata) e)
                     | Inr all_items \<Rightarrow> Inr (filter (\<lambda>item. \<not> is_folder item) all_items))
               else Inr [\<lparr> item_id = r_id initial_metadata,
                           item_name = r_name initial_metadata,
                           item_mimeType = r_mimeType initial_metadata,
                           item_size = (case r_size initial_metadata of None \<Rightarrow> 0 | Some n \<Rightarrow> n),
                           item_path = r_name initial_metadata,
                           is_folder = False \<rparr>]))"

text \<open>
  The scenario of the specification: a folder holding the files \<open>b.txt\<close> (10 bytes) and
  \<open>a.txt\<close> (20 bytes) and the subfolder \<open>sub\<close>, which holds \<open>c.txt\<close> (5 bytes).  The
  root folder's name \<open>root_name\<close> and the page size are left open.
\<close>

definition scenario_folder :: "string \<Rightarrow> remote" where
  "scenario_folder root_name =
     Remote ''F0'' root_name folder_mime None (Some
       [ Remote ''F1'' ''b.txt'' ''text/plain'' (Some 10) (Some []),
         Remote ''F2'' ''a.txt'' ''text/plain'' (Some 20) (Some []),
         Remote ''F3'' ''sub'' folder_mime None (Some
           [ Remote ''F4'' ''c.txt'' ''text/plain'' (Some 5) (Some []) ]) ])"

definition scenario_drive :: "string \<Rightarrow> nat \<Rightarrow> drive" where
  "scenario_drive root_name n =
     \<lparr> lookup = (\<lambda>i. if i = ''F0'' then Some (scenario_folder root_name) else None),
       page_size = n \<rparr>"

definition scenario_link :: string where
  "scenario_link = ''https://drive.google.com/drive/folders/F0''"


subsection \<open>The walk order\<close>

declare list_files_in_folder_recursive.simps [simp del]

lemma items_loop_append:
  "items_loop ps (xs @ ys) cp =
     (case items_loop ps xs cp of
        Inl e \<Rightarrow> Inl e
      | Inr a \<Rightarrow> (case items_loop ps ys cp of Inl e \<Rightarrow> Inl e | Inr b \<Rightarrow> Inr (a @ b)))"
  by (induction xs) (auto split: sum.splits)

lemma pages_loop_concat: "pages_loop ps pages cp = items_loop ps (concat pages) cp"
  by (induction pages) (auto simp: items_loop_append split: sum.splits)

text \<open>Paging does not show in the result: the pages of a listing are walked in order.\<close>

lemma list_files_unpaged:
  "list_files_in_folder_recursive ps folder cp =
     (case r_listing folder of
        None \<Rightarrow> Inl AttributeError
      | Some cs \<Rightarrow> items_loop ps (drive_order cs) cp)"
  by (simp add: list_files_in_folder_recursive.simps pages_loop_concat concat_chop
        split: option.splits)

lemma weight_member: "c \<in> set cs \<Longrightarrow> weight c \<le> sum_list (map weight cs)"
  by (induction cs) auto

lemma set_drive_order: "set (drive_order cs) = set cs"
  by (auto simp: drive_order_def)

text \<open>
  The order as the specification words it, for comparison with the code: at every level
  the children are taken folders first and then by name; a file contributes its own
  descriptor, a subfolder contributes the files of its own walk in its place, and no folder
  is listed itself.  A path is the slash-joined chain of the names above the file.
\<close>

function spec_folder_walk :: "remote \<Rightarrow> string \<Rightarrow> item_details list" where
  "spec_folder_walk folder path =
     (case r_listing folder of
        None \<Rightarrow> []
      | Some cs \<Rightarrow>
          concat (map (\<lambda>c. if r_mimeType c = folder_mime
                            then spec_folder_walk c (join_path path (r_name c))
                            else [details_of c path])
                      (drive_order cs)))"
  by pat_completeness auto
termination
proof (relation "measure (\<lambda>(folder, path). weight folder)", goal_cases)
  case 1
  show ?case by simp
next
  case (2 folder path cs c)
  then have "c \<in> set cs" by (simp add: set_drive_order)
  then have "weight c \<le> sum_list (map weight cs)" by (rule weight_member)
  with 2 show ?case using weight_listing [of folder cs] by simp
qed

declare spec_folder_walk.simps [simp del]

definition spec_entry :: "string \<Rightarrow> remote \<Rightarrow> item_details list" where
  "spec_entry path c =
     (if r_mimeType c = folder_mime then spec_folder_walk c (join_path path (r_name c))
      else [details_of c path])"

lemma is_folder_details: "is_folder (details_of c p) \<longleftrightarrow> r_mimeType c = folder_mime"
  by (simp add: details_of_def)

lemma walk_refines:
  "(\<forall>all. list_files_in_folder_recursive ps folder cp = Inr all \<longrightarrow>
       filter (\<lambda>i. \<not> is_folder i) all = spec_folder_walk folder cp)"
  "(\<forall>all. pages_loop ps pages cp = Inr all \<longrightarrow>
       filter (\<lambda>i. \<not> is_folder i) all = concat (map (spec_entry cp) (concat pages)))"
  "(\<forall>all. items_loop ps items cp = Inr all \<longrightarrow>
       filter (\<lambda>i. \<not> is_folder i) all = concat (map (spec_entry cp) items))"
proof (induction ps folder cp and ps pages cp and ps items cp
       rule: list_files_in_folder_recursive_pages_loop_items_loop.induct)
  case (1 ps folder current_path)
  show ?case
  proof (cases "r_listing folder")
    case None
    then show ?thesis by (simp add: list_files_in_folder_recursive.simps)
  next
    case (Some cs)
    with 1 show ?thesis
      by (simp add: list_files_in_folder_recursive.simps spec_folder_walk.simps [of folder]
            concat_chop spec_entry_def)
  qed
next
  case (2 ps current_path)
  show ?case by simp
next
  case (3 ps page rest current_path)
  then show ?case by (auto split: sum.splits)
next
  case (4 ps current_path)
  show ?case by simp
next
  case (5 ps item rest current_path)
  then show ?case
    by (auto simp: spec_entry_def is_folder_details split: sum.splits if_splits)
qed

text \<open>Every descriptor the walk keeps is built by \<open>details_of\<close>, so its flag tells its type.\<close>

lemma walk_flags:
  "(\<forall>all. list_files_in_folder_recursive ps folder cp = Inr all \<longrightarrow>
       list_all (\<lambda>i. is_folder i \<longleftrightarrow> item_mimeType i = folder_mime) all)"
  "(\<forall>all. pages_loop ps pages cp = Inr all \<longrightarrow>
       list_all (\<lambda>i. is_folder i \<longleftrightarrow> item_mimeType i = folder_mime) all)"
  "(\<forall>all. items_loop ps items cp = Inr all \<longrightarrow>
       list_all (\<lambda>i. is_folder i \<longleftrightarrow> item_mimeType i = folder_mime) all)"
proof (induction ps folder cp and ps pages cp and ps items cp
       rule: list_files_in_folder_recursive_pages_loop_items_loop.induct)
  case (1 ps folder current_path)
  then show ?case
    by (cases "r_listing folder") (simp_all add: list_files_in_folder_recursive.simps)
next
  case (2 ps current_path)
  show ?case by simp
next
  case (3 ps page rest current_path)
  then show ?case by (auto split: sum.splits)
next
  case (4 ps current_path)
  show ?case by simp
next
  case (5 ps item rest current_path)
  then show ?case
    by (auto simp: details_of_def split: sum.splits if_splits)
qed


text \<open>
  The walk of a folder returns a list exactly when the folder and every folder below it
  can be listed.
\<close>

fun all_listed :: "remote \<Rightarrow> bool" where
  "all_listed (Remote i n m s l) =
     (case l of
        None \<Rightarrow> False
      | Some cs \<Rightarrow> list_all (\<lambda>c. r_mimeType c \<noteq> folder_mime \<or> all_listed c) cs)"

lemma all_listed_children:
  "all_listed folder \<Longrightarrow> r_listing folder = Some cs \<Longrightarrow> c \<in> set cs \<Longrightarrow>
     r_mimeType c = folder_mime \<Longrightarrow> all_listed c"
  by (cases folder) (auto simp: list_all_iff)

lemma all_listed_listing: "all_listed folder \<Longrightarrow> r_listing folder \<noteq> None"
  by (cases folder) (auto split: option.splits)

lemma walk_succeeds:
  "all_listed folder \<longrightarrow> (\<exists>all. list_files_in_folder_recursive ps folder cp = Inr all)"
  "(\<forall>c \<in> set (concat pages). r_mimeType c = folder_mime \<longrightarrow> all_listed c) \<longrightarrow>
     (\<exists>all. pages_loop ps pages cp = Inr all)"
  "(\<forall>c \<in> set items. r_mimeType c = folder_mime \<longrightarrow> all_listed c) \<longrightarrow>
     (\<exists>all. items_loop ps items cp = Inr all)"
proof (induction ps folder cp and ps pages cp and ps items cp
       rule: list_files_in_folder_recursive_pages_loop_items_loop.induct)
  case (1 ps folder current_path)
  show ?case
  proof
    assume a: "all_listed folder"
    then obtain cs where cs: "r_listing folder = Some cs"
      using all_listed_listing by blast
    have "\<forall>c \<in> set (concat (chop ps (drive_order cs))). r_mimeType c = folder_mime \<longrightarrow> all_listed c"
      using a cs by (auto simp: concat_chop set_drive_order dest: all_listed_children)
    with 1 [OF cs] cs show "\<exists>all. list_files_in_folder_recursive ps folder current_path = Inr all"
      by (simp add: list_files_in_folder_recursive.simps)
  qed
next
  case (2 ps current_path)
  show ?case by simp
next
  case (3 ps page rest current_path)
  show ?case
  proof
    assume a: "\<forall>c \<in> set (concat (page # rest)). r_mimeType c = folder_mime \<longrightarrow> all_listed c"
    then have "\<forall>c \<in> set page. r_mimeType c = folder_mime \<longrightarrow> all_listed c" by simp
    with 3(1) obtain found where f: "items_loop ps page current_path = Inr found" by blast
    from a have "\<forall>c \<in> set (concat rest). r_mimeType c = folder_mime \<longrightarrow> all_listed c" by simp
    with 3(2) [OF f] obtain later where "pages_loop ps rest current_path = Inr later" by blast
    with f show "\<exists>all. pages_loop ps (page # rest) current_path = Inr all" by simp
  qed
next
  case (4 ps current_path)
  show ?case by simp
next
  case (5 ps item rest current_path)
  show ?case
  proof
    assume a: "\<forall>c \<in> set (item # rest). r_mimeType c = folder_mime \<longrightarrow> all_listed c"
    obtain sub_items where s:
      "(if r_mimeType item = folder_mime
        then list_files_in_folder_recursive ps item (join_path current_path (r_name item))
        else Inr []) = Inr sub_items"
      using a 5(1) by (cases "r_mimeType item = folder_mime") auto
    from a have "\<forall>c \<in> set rest. r_mimeType c = folder_mime \<longrightarrow> all_listed c" by simp
    with 5(2) [OF s] obtain later where "items_loop ps rest current_path = Inr later" by blast
    with s show "\<exists>all. items_loop ps (item # rest) current_path = Inr all" by simp
  qed
qed

lemma enumeration_succeeds:
  assumes "get_file_id_from_link drive_link = Some file_id"
      and "lookup d file_id = Some folder"
      and "r_mimeType folder = folder_mime"
      and "all_listed folder"
  shows "get_drive_items_from_link d drive_link = Inr (spec_folder_walk folder (r_name folder))"
proof -
  from assms(4) obtain all_items where
    listed: "list_files_in_folder_recursive (page_size d) folder (r_name folder) = Inr all_items"
    using walk_succeeds(1) by blast
  then have "filter (\<lambda>i. \<not> is_folder i) all_items = spec_folder_walk folder (r_name folder)"
    using walk_refines(1) by blast
  with listed assms(1-3) show ?thesis
    by (simp add: get_drive_items_from_link_def)
qed

subsection \<open>Claims about the enumerator\<close>

lemma scenario_link_id: "get_file_id_from_link scenario_link = Some ''F0''"
  by (simp add: get_file_id_from_link_def scenario_link_def id_char_def)

lemma scenario_items:
  "get_drive_items_from_link (scenario_drive root_name n) scenario_link =
     Inr [ \<lparr> item_id = ''F4'', item_name = ''c.txt'', item_mimeType = ''text/plain'',
              item_size = 5, item_path = join_path (join_path root_name ''sub'') ''c.txt'',
              is_folder = False \<rparr>,
           \<lparr> item_id = ''F2'', item_name = ''a.txt'', item_mimeType = ''text/plain'',
              item_size = 20, item_path = join_path root_name ''a.txt'', is_folder = False \<rparr>,
           \<lparr> item_id = ''F1'', item_name = ''b.txt'', item_mimeType = ''text/plain'',
              item_size = 10, item_path = join_path root_name ''b.txt'', is_folder = False \<rparr> ]"
  by (simp add: get_drive_items_from_link_def scenario_link_id scenario_drive_def
        scenario_folder_def list_files_unpaged drive_order_def details_of_def folder_mime_def)

text \<open>
  Claim C1, as the code has it.  For the folder of the scenario (files \<open>b.txt\<close> of 10 bytes
  and \<open>a.txt\<close> of 20 bytes, subfolder \<open>sub\<close> holding \<open>c.txt\<close> of 5 bytes), whatever the
  folder's own name and the page size of the listing, \<open>get_drive_items_from_link\<close> returns
  exactly three file descriptors, in this order: \<open>c.txt\<close> of the subfolder first, then
  \<open>a.txt\<close>, then \<open>b.txt\<close>; and every path starts with the name of the linked folder, since
  the walk is started with that name as \<open>current_path\<close>.
\<close>

theorem scenario_enumeration:
  "map_sum id (map item_path)
     (get_drive_items_from_link (scenario_drive root_name n) scenario_link) =
   Inr [ join_path (join_path root_name ''sub'') ''c.txt'',
         join_path root_name ''a.txt'',
         join_path root_name ''b.txt'' ]"
  by (simp add: scenario_items)

theorem scenario_enumeration_witness:
  "map_sum id (map item_path)
     (get_drive_items_from_link (scenario_drive ''shared'' 2) scenario_link) =
   Inr [ ''shared/sub/c.txt'', ''shared/a.txt'', ''shared/b.txt'' ]"
  using scenario_enumeration [of "''shared''" 2] by (simp add: join_path_def)

text \<open>
  Claim C1 as the specification states it fails: the result for the scenario is not the
  list of paths \<open>a.txt\<close>, \<open>b.txt\<close>, \<open>sub/c.txt\<close>.
\<close>

theorem scenario_enumeration_counterexample:
  "map_sum id (map item_path)
     (get_drive_items_from_link (scenario_drive ''shared'' 2) scenario_link)
   \<noteq> Inr [ ''a.txt'', ''b.txt'', ''sub/c.txt'' ]"
  by (simp add: scenario_items join_path_def)

text \<open>
  Claim C9.  When a link resolves to a folder and the enumeration returns a list, no
  entry of the list is a folder (neither by its flag nor by its MIME type), and the list
  is the walk of the folder in the order of the specification: folders before files and
  then by name at every level, the files of a subfolder in the place of the subfolder.
  (By lemma \<open>enumeration_succeeds\<close> the enumeration does return that list whenever every
  folder of the tree can be listed.)
\<close>

theorem enumerator_files_in_walk_order:
  assumes "get_file_id_from_link drive_link = Some file_id"
      and "lookup d file_id = Some folder"
      and "r_mimeType folder = folder_mime"
      and "get_drive_items_from_link d drive_link = Inr files_to_process"
  shows "list_all (\<lambda>item. \<not> is_folder item \<and> item_mimeType item \<noteq> folder_mime) files_to_process
         \<and> files_to_process = spec_folder_walk folder (r_name folder)"
proof -
  from assms obtain all_items where
    listed: "list_files_in_folder_recursive (page_size d) folder (r_name folder) = Inr all_items"
    and kept: "files_to_process = filter (\<lambda>item. \<not> is_folder item) all_items"
    by (auto simp: get_drive_items_from_link_def split: sum.splits)
  from listed have flags:
    "list_all (\<lambda>i. is_folder i \<longleftrightarrow> item_mimeType i = folder_mime) all_items"
    using walk_flags(1) by blast
  have "list_all (\<lambda>item. \<not> is_folder item \<and> item_mimeType item \<noteq> folder_mime) files_to_process"
    using flags unfolding kept by (induction all_items) auto
  moreover have "files_to_process = spec_folder_walk folder (r_name folder)"
    using listed walk_refines(1) unfolding kept by blast
  ultimately show ?thesis by simp
qed

theorem enumerator_files_in_walk_order_witness:
  "get_file_id_from_link scenario_link = Some ''F0''
   \<and> lookup (scenario_drive ''shared'' 2) ''F0'' = Some (scenario_folder ''shared'')
   \<and> r_mimeType (scenario_folder ''shared'') = folder_mime
   \<and> map_sum id (map item_path)
        (get_drive_items_from_link (scenario_drive ''shared'' 2) scenario_link) =
      Inr [ ''shared/sub/c.txt'', ''shared/a.txt'', ''shared/b.txt'' ]
   \<and> map item_path (spec_folder_walk (scenario_folder ''shared'') ''shared'') =
      [ ''shared/sub/c.txt'', ''shared/a.txt'', ''shared/b.txt'' ]
   \<and> list_all (\<lambda>item. \<not> is_folder item \<and> item_mimeType item \<noteq> folder_mime)
        (spec_folder_walk (scenario_folder ''shared'') ''shared'')"
proof -
  have h1: "get_file_id_from_link scenario_link = Some ''F0''"
    by (rule scenario_link_id)
  have h2: "lookup (scenario_drive ''shared'' 2) ''F0'' = Some (scenario_folder ''shared'')"
    by (simp add: scenario_drive_def)
  have h3: "r_mimeType (scenario_folder ''shared'') = folder_mime"
    by (simp add: scenario_folder_def)
  obtain fs where h4: "get_drive_items_from_link (scenario_drive ''shared'' 2) scenario_link = Inr fs"
    and paths: "map item_path fs = [ ''shared/sub/c.txt'', ''shared/a.txt'', ''shared/b.txt'' ]"
    by (simp add: scenario_items join_path_def)
  have h5: "r_name (scenario_folder ''shared'') = ''shared''"
    by (simp add: scenario_folder_def)
  note walk = enumerator_files_in_walk_order [OF h1 h2 h3 h4, unfolded h5]
  from walk have same: "fs = spec_folder_walk (scenario_folder ''shared'') ''shared''"
    by (rule conjunct2)
  from walk have files:
    "list_all (\<lambda>item. \<not> is_folder item \<and> item_mimeType item \<noteq> folder_mime) fs"
    by (rule conjunct1)
  from h4 paths have
    "map_sum id (map item_path)
        (get_drive_items_from_link (scenario_drive ''shared'' 2) scenario_link) =
      Inr [ ''shared/sub/c.txt'', ''shared/a.txt'', ''shared/b.txt'' ]"
    by simp
  with h1 h2 h3 paths files show ?thesis
    unfolding same by blast
qed


section \<open>Credential store (auth\_manager.py)\<close>

text \<open>
  A \<open>Credentials\<close> object of the OAuth client library, as far as the store uses it.
  \<open>expiry\<close> is the instant (in seconds) at which the access token lapses; the
  authorization exchange sets it, and so does a successful refresh.
\<close>

record credentials =
  token :: string
  refresh_token :: "string option"
  token_uri :: string
  client_id :: string
  client_secret :: string
  scopes :: "string list"
  expiry :: "nat option"

text \<open>
  The dictionary \<open>save_user_credentials\<close> writes for one user.  It has the six keys below
  and no key for the expiry.
\<close>

record stored_credentials =
  stored_token :: string
  stored_refresh_token :: "string option"
  stored_token_uri :: string
  stored_client_id :: string
  stored_client_secret :: string
  stored_scopes :: "string list"

text \<open>
  The token storage file: absent (\<open>None\<close>), or present with content that is not JSON, or
  present with the JSON object the program writes, which maps \<open>str(user_id)\<close> to a user's
  dictionary.  User ids are integers and \<open>str\<close> is one-to-one on them, so the object is
  keyed by the id itself.
\<close>

datatype token_file =
    NotJSON
  | Tokens "int \<Rightarrow> stored_credentials option"

type_synonym storage = "token_file option"

definition save_user_credentials :: "int \<Rightarrow> credentials \<Rightarrow> storage \<Rightarrow> storage" where
  "save_user_credentials user_id creds st =
     (let all_tokens = (case st of
                          None \<Rightarrow> Map.empty
                        | Some NotJSON \<Rightarrow> Map.empty
                        | Some (Tokens loaded) \<Rightarrow> loaded)
      in Some (Tokens (all_tokens(user_id \<mapsto>
           \<lparr> stored_token = token creds,
             stored_refresh_token = refresh_token creds,
             stored_token_uri = token_uri creds,
             stored_client_id = client_id creds,
             stored_client_secret = client_secret creds,
             stored_scopes = scopes creds \<rparr>))))"

text \<open>
  \<open>delete_user_credentials\<close> reads the file with \<open>json.load\<close> outside any \<open>try\<close>, so a
  \<open>JSONDecodeError\<close> leaves the function.
\<close>

definition delete_user_credentials :: "int \<Rightarrow> storage \<Rightarrow> exn + (storage \<times> bool)" where
  "delete_user_credentials user_id st =
     (case st of
        None \<Rightarrow> Inr (st, False)
      | Some NotJSON \<Rightarrow> Inl JSONDecodeError
      | Some (Tokens all_tokens) \<Rightarrow>
          if all_tokens user_id \<noteq> None
          then Inr (Some (Tokens (all_tokens(user_id := None))), True)
          else Inr (st, False))"

text \<open>
  \<open>Credentials(**user_creds_dict)\<close>: the constructor's \<open>expiry\<close> parameter defaults to
  \<open>None\<close>, and the stored dictionary has no such key.
\<close>

definition Credentials :: "stored_credentials \<Rightarrow> credentials" where
  "Credentials user_creds_dict =
     \<lparr> token = stored_token user_creds_dict,
       refresh_token = stored_refresh_token user_creds_dict,
       token_uri = stored_token_uri user_creds_dict,
       client_id = stored_client_id user_creds_dict,
       client_secret = stored_client_secret user_creds_dict,
       scopes = stored_scopes user_creds_dict,
       expiry = None \<rparr>"

text \<open>
  What the store takes from outside: the clock, the library's margin before the expiry
  instant, and what the token endpoint answers to a refresh of given credentials.
\<close>

record auth_env =
  clock :: nat
  refresh_margin :: nat
  refresh :: "credentials \<Rightarrow> exn + credentials"

text \<open>
  The library's \<open>expired\<close> property: credentials without an expiry never count as
  expired; otherwise they do from \<open>refresh_margin\<close> seconds before the expiry instant.
\<close>

definition expired :: "auth_env \<Rightarrow> credentials \<Rightarrow> bool" where
  "expired env c =
     (case expiry c of
        None \<Rightarrow> False
      | Some t \<Rightarrow> t \<le> clock env + refresh_margin env)"

text \<open>Python's truth value of \<open>credentials.refresh_token\<close>.\<close>

definition truthy :: "string option \<Rightarrow> bool" where
  "truthy v = (case v of None \<Rightarrow> False | Some s \<Rightarrow> s \<noteq> [])"

definition load_user_credentials ::
  "auth_env \<Rightarrow> int \<Rightarrow> storage \<Rightarrow> exn + (storage \<times> credentials option)" where
  "load_user_credentials env user_id st =
     (case st of
        None \<Rightarrow> Inr (st, None)
      | Some NotJSON \<Rightarrow> Inr (st, None)
      | Some (Tokens all_tokens) \<Rightarrow>
          (case all_tokens user_id of
             None \<Rightarrow> Inr (st, None)
           | Some user_creds_dict \<Rightarrow>
               (let creds = Credentials user_creds_dict in
                if expired env creds \<and> truthy (refresh_token creds)
                then (case refresh env creds of
                        Inr refreshed \<Rightarrow>
                          Inr (save_user_credentials user_id refreshed st, Some refreshed)
                      | Inl e \<Rightarrow>
                          (case delete_user_credentials user_id st of
                             Inl e' \<Rightarrow> Inl e'
                           | Inr (st', existed) \<Rightarrow> Inr (st', None)))
                else Inr (st, Some creds))))"


subsection \<open>Claims about the credential store\<close>

text \<open>
  Claim C3 (corrupted token storage).  On a token file whose content is not JSON,
  \<open>save_user_credentials\<close> starts from an empty object and writes the user's entry, and
  \<open>load_user_credentials\<close> returns \<open>None\<close> and leaves the file alone; but
  \<open>delete_user_credentials\<close> does not treat the store as empty and return \<open>False\<close>: it
  ends with the \<open>JSONDecodeError\<close> of \<open>json.load\<close>.
\<close>

theorem corrupt_storage_delete_raises:
  "save_user_credentials user_id c (Some NotJSON) = save_user_credentials user_id c None
   \<and> load_user_credentials env user_id (Some NotJSON) = Inr (Some NotJSON, None)
   \<and> delete_user_credentials user_id (Some NotJSON) = Inl JSONDecodeError"
  by (simp add: save_user_credentials_def load_user_credentials_def delete_user_credentials_def)

lemma expired_Credentials: "\<not> expired env (Credentials d)"
  by (simp add: expired_def Credentials_def)

text \<open>
  Credentials read back from the store carry no expiry, so the refresh branch of
  \<open>load_user_credentials\<close> is never taken: the store is left as it is and the stored entry
  is returned as it is, whatever the clock and the token endpoint.
\<close>

lemma load_no_refresh:
  "load_user_credentials env user_id st =
     Inr (st, case st of
                None \<Rightarrow> None
              | Some NotJSON \<Rightarrow> None
              | Some (Tokens all_tokens) \<Rightarrow> map_option Credentials (all_tokens user_id))"
  by (simp add: load_user_credentials_def expired_Credentials Let_def
        split: option.splits token_file.splits)

lemma load_after_save:
  "load_user_credentials env user_id (save_user_credentials user_id c st) =
     Inr (save_user_credentials user_id c st, Some (c\<lparr>expiry := None\<rparr>))"
  by (simp add: load_no_refresh save_user_credentials_def Credentials_def Let_def)

text \<open>
  A user whose access token lapsed long ago: the credentials were issued with expiry
  instant 3600 and the clock reads 100000.  \<open>granting_env\<close> has a token endpoint that
  grants every refresh, \<open>refusing_env\<close> one that refuses every refresh.
\<close>

definition lapsed_credentials :: credentials where
  "lapsed_credentials =
     \<lparr> token = ''access-0'', refresh_token = Some ''refresh-0'',
       token_uri = ''https://oauth2.googleapis.com/token'', client_id = ''client'',
       client_secret = ''secret'',
       scopes = [''https://www.googleapis.com/auth/drive.readonly''],
       expiry = Some 3600 \<rparr>"

definition granting_env :: auth_env where
  "granting_env =
     \<lparr> clock = 100000, refresh_margin = 225,
       refresh = (\<lambda>c. Inr (c\<lparr>token := ''access-1'', expiry := Some 103600\<rparr>)) \<rparr>"

definition refusing_env :: auth_env where
  "refusing_env =
     \<lparr> clock = 100000, refresh_margin = 225, refresh = (\<lambda>c. Inl RefreshError) \<rparr>"

text \<open>
  Claim C7 (refresh on load) does not hold of the code.  The credentials of user 7 are
  saved, they are expired at the time of the load and they have a refresh token.  Where the
  refresh would be granted, \<open>load_user_credentials\<close> still returns the old access token
  and persists nothing new; where it would be refused, \<open>load_user_credentials\<close> still
  returns the credentials instead of \<open>None\<close>, and the stored entry stays.
\<close>

theorem load_lapsed_credentials_unrefreshed:
  "expired granting_env lapsed_credentials
   \<and> truthy (refresh_token lapsed_credentials)
   \<and> load_user_credentials granting_env 7 (save_user_credentials 7 lapsed_credentials None) =
       Inr (save_user_credentials 7 lapsed_credentials None,
            Some (lapsed_credentials\<lparr>expiry := None\<rparr>))
   \<and> token (lapsed_credentials\<lparr>expiry := None\<rparr>) = ''access-0''
   \<and> expired refusing_env lapsed_credentials
   \<and> load_user_credentials refusing_env 7 (save_user_credentials 7 lapsed_credentials None) =
       Inr (save_user_credentials 7 lapsed_credentials None,
            Some (lapsed_credentials\<lparr>expiry := None\<rparr>))"
  by (simp add: load_after_save expired_def granting_env_def refusing_env_def
        lapsed_credentials_def truthy_def)


section \<open>Transfer engine (file\_manager.py)\<close>

text \<open>
  The size thresholds of \<open>config.py\<close>, in bytes, and the scratch directory.  The defaults
  are 50 MiB and 2000 MiB.
\<close>

record config =
  LARGE_FILE_THRESHOLD_BYTES :: nat
  MAX_FILE_SIZE_TG_BYTES :: nat
  DOWNLOAD_DIR :: string

definition default_config :: config where
  "default_config =
     \<lparr> LARGE_FILE_THRESHOLD_BYTES = 50 * 1024 * 1024,
       MAX_FILE_SIZE_TG_BYTES = 2000 * 1024 * 1024,
       DOWNLOAD_DIR = ''downloads'' \<rparr>"

text \<open>
  The texts sent to the user, by the place that builds them, with the values they show.
\<close>

datatype notice =
    TooLargeNotice string nat nat
  | UploadFailedNotice string exn
  | FoundNotice nat
  | PreparingNotice string
  | LoginRequiredNotice string nat nat
  | WorkspaceDocNotice string
  | DownloadMissingNotice string
  | DownloadEmptyNotice string nat
  | ConnectionErrorNotice string
  | FileSystemErrorNotice string
  | UnexpectedErrorNotice string exn
  | SummaryNotice nat nat

text \<open>
  The requests the pipeline issues while it transfers: \<open>bot.send_message\<close>, the
  \<open>edit_text\<close> of a status message, \<open>bot.send_document\<close> (chat, local path, file name,
  caption) and one \<open>downloader.next_chunk()\<close> for a file id.
\<close>

datatype event =
    SendMessage int notice
  | EditText notice
  | SendDocument int string string string
  | NextChunk string

text \<open>
  The state the pipeline works on: the sizes of the files in local storage, and the
  requests issued so far, oldest first.  A request is recorded when it is issued, whether
  it then succeeds or raises.  The progress callbacks are left out of the trace: they only
  edit the status message, and they swallow every exception of that edit.
\<close>

record world =
  files :: "string \<Rightarrow> nat option"
  trace :: "event list"

text \<open>
  What lies outside the program: which Telegram requests raise (by their position in the
  trace), which paths \<open>os.remove\<close> fails on, how the media stream of a file id goes (the
  first \<open>next_chunk\<close> and the ones after it; the stream is done after the last), which
  characters \<open>str.isalnum\<close> takes as alphanumeric (a character given by its bytes), and the
  text \<open>format_bytes\<close> renders for a size.  Sizes are those the Drive service reports for
  a file, all within the range for which \<open>format_bytes\<close> has a unit label (up to
  \<open>1024 ^ 5\<close> bytes), so the rendering is a total function.
\<close>

datatype chunk = Data nat | ApiFailure | OtherFailure

record env =
  telegram_raises :: "nat \<Rightarrow> bool"
  remove_raises :: "string \<Rightarrow> bool"
  stream :: "string \<Rightarrow> chunk \<times> chunk list"
  isalnum :: "string \<Rightarrow> bool"
  format_bytes :: "nat \<Rightarrow> string"

definition telegram :: "env \<Rightarrow> event \<Rightarrow> world \<Rightarrow> world \<times> (exn + unit)" where
  "telegram e ev w =
     (w\<lparr>trace := trace w @ [ev]\<rparr>,
      if telegram_raises e (length (trace w)) then Inl TelegramError else Inr ())"

definition os_remove :: "env \<Rightarrow> string \<Rightarrow> world \<Rightarrow> world \<times> (exn + unit)" where
  "os_remove e p w =
     (if remove_raises e p \<or> files w p = None then (w, Inl OSError)
      else (w\<lparr>files := (files w)(p := None)\<rparr>, Inr ()))"

text \<open>
  A Python string is a sequence of characters, not of bytes.  Strings are kept here in
  UTF-8, where a character is one byte that is no continuation byte, followed by its
  continuation bytes (the bytes from 128 to 191).  \<open>characters\<close> cuts a string into its
  characters.
\<close>

definition continuation :: "char \<Rightarrow> bool" where
  "continuation c \<longleftrightarrow> (128::nat) \<le> of_char c \<and> of_char c < (192::nat)"

function characters :: "string \<Rightarrow> string list" where
  "characters [] = []"
| "characters (c # cs) =
     (c # takeWhile continuation cs) # characters (dropWhile continuation cs)"
  by pat_completeness auto
termination
  by (relation "measure length") (auto simp: length_dropWhile_le less_Suc_eq_le)

text \<open>
  The scratch path of a download: every character of the name that is not alphanumeric
  and not one of \<open>.\<close>, \<open>_\<close>, \<open>-\<close> becomes \<open>_\<close>; an empty result falls back to the file id.
\<close>

definition safe_file_name :: "env \<Rightarrow> string \<Rightarrow> string \<Rightarrow> string" where
  "safe_file_name e file_id file_name =
     (let cleaned = concat (map (\<lambda>c. if isalnum e c \<or> c \<in> set [''.'', ''_'', ''-'']
                                      then c else ''_'')
                             (characters file_name))
      in if cleaned = [] then file_id else cleaned)"

definition scratch_path :: "config \<Rightarrow> env \<Rightarrow> string \<Rightarrow> string \<Rightarrow> string" where
  "scratch_path cfg e file_id file_name =
     DOWNLOAD_DIR cfg @ ''/'' @ safe_file_name e file_id file_name"

text \<open>
  The \<open>while not done\<close> loop of the download, over the chunks the stream still holds:
  each round issues one \<open>next_chunk\<close>, which appends data to the scratch file or raises.
\<close>

fun fetch_loop :: "string \<Rightarrow> string \<Rightarrow> chunk list \<Rightarrow> world \<Rightarrow> world \<times> (exn + unit)" where
  "fetch_loop file_id file_path [] w = (w, Inr ())"
| "fetch_loop file_id file_path (c # cs) w =
     (let w1 = w\<lparr>trace := trace w @ [NextChunk file_id]\<rparr> in
      case c of
        Data n \<Rightarrow>
          fetch_loop file_id file_path cs
            (w1\<lparr>files := (files w1)(file_path \<mapsto>
                   (case files w1 file_path of None \<Rightarrow> n | Some k \<Rightarrow> k + n))\<rparr>)
      | ApiFailure \<Rightarrow> (w1, Inl HttpError)
      | OtherFailure \<Rightarrow> (w1, Inl OSError))"

text \<open>
  \<open>download_gdrive_file\<close>.  Before the test for a scratch file the function builds the
  service object and the request and writes a log line; these are taken to succeed.  A
  scratch file of exactly the expected size is reused when that size is positive.
  Otherwise the file is opened for writing (created or truncated) and filled chunk by
  chunk.  On an error the partial file is removed first.  Then, for an \<open>HttpError\<close>, the
  text of the \<open>ConnectionError\<close> to raise reads \<open>error.details\<close>, so an \<open>AttributeError\<close>
  leaves the function; any other exception becomes an \<open>IOError\<close>.
\<close>

definition download_gdrive_file ::
  "config \<Rightarrow> env \<Rightarrow> string \<Rightarrow> string \<Rightarrow> nat \<Rightarrow> world \<Rightarrow> world \<times> (exn + string)" where
  "download_gdrive_file cfg e file_id file_name file_size w =
     (let file_path = scratch_path cfg e file_id file_name in
      if files w file_path \<noteq> None \<and> files w file_path = Some file_size \<and> file_size > 0
      then (w, Inr file_path)
      else
        (case fetch_loop file_id file_path (fst (stream e file_id) # snd (stream e file_id))
                (w\<lparr>files := (files w)(file_path \<mapsto> 0)\<rparr>) of
           (w1, Inr u) \<Rightarrow> (w1, Inr file_path)
         | (w1, Inl err) \<Rightarrow>
             (case (if files w1 file_path \<noteq> None then os_remove e file_path w1
                    else (w1, Inr ())) of
                (w2, Inl err') \<Rightarrow> (w2, Inl err')
              | (w2, Inr u) \<Rightarrow>
                  (w2, Inl (if err = HttpError then AttributeError else IOError)))))"

text \<open>
  \<open>upload_to_telegram\<close>.  The size is read from the local file.  The check against the
  limit, with its \<open>return False\<close>, stands before the \<open>try\<close>; the \<open>finally\<close> clause that
  removes the local file belongs to the \<open>try\<close> and runs for the paths through it only.  A
  failure of that removal is logged and swallowed.
\<close>

definition upload_to_telegram ::
  "config \<Rightarrow> env \<Rightarrow> int \<Rightarrow> string \<Rightarrow> string \<Rightarrow> string \<Rightarrow> world \<Rightarrow> world \<times> (exn + bool)" where
  "upload_to_telegram cfg e chat_id file_path caption original_filename w =
     (case files w file_path of
        None \<Rightarrow> (w, Inl OSError)
      | Some file_size \<Rightarrow>
          if file_size > MAX_FILE_SIZE_TG_BYTES cfg
          then (case telegram e (SendMessage chat_id
                         (TooLargeNotice original_filename file_size (MAX_FILE_SIZE_TG_BYTES cfg))) w of
                  (w1, Inl err) \<Rightarrow> (w1, Inl err)
                | (w1, Inr u) \<Rightarrow> (w1, Inr False))
          else
            (let (w2, result) =
                   (case telegram e (SendDocument chat_id file_path original_filename caption) w of
                      (w1, Inr u) \<Rightarrow> (w1, Inr True)
                    | (w1, Inl err) \<Rightarrow>
                        (case telegram e (SendMessage chat_id
                                 (UploadFailedNotice original_filename err)) w1 of
                           (w1', Inl err') \<Rightarrow> (w1', Inl err')
                         | (w1', Inr u) \<Rightarrow> (w1', Inr False)));
                 w3 = (if files w2 file_path \<noteq> None then fst (os_remove e file_path w2) else w2)
             in (w3, result)))"


section \<open>Session orchestrator (main.py)\<close>

text \<open>
  The names bound in the module namespace of \<open>main.py\<close>: its imports, its one global
  variable and its functions.  A name outside this list (and outside the builtins) raises
  \<open>NameError\<close> when a function of the module evaluates it.
\<close>

definition main_globals :: "string list" where
  "main_globals =
     [ ''asyncio'', ''re'', ''Update'', ''constants'', ''Application'', ''CommandHandler'',
       ''MessageHandler'', ''filters'', ''ContextTypes'', ''CallbackContext'',
       ''TELEGRAM_BOT_TOKEN'', ''LARGE_FILE_THRESHOLD_BYTES'', ''GOOGLE_REDIRECT_URI'',
       ''ADMIN_USER_ID'', ''logger'', ''auth_manager'', ''gdrive_handler'', ''file_manager'',
       ''user_processing_locks'', ''start_command'', ''help_command'', ''login_command'',
       ''logout_command'', ''status_command'', ''handle_message'', ''main'' ]"

text \<open>\<open>needle in haystack\<close> for strings.\<close>

fun contains :: "string \<Rightarrow> string \<Rightarrow> bool" where
  "contains needle [] = (needle = [])"
| "contains needle (c # cs) = (take (length needle) (c # cs) = needle \<or> contains needle cs)"

text \<open>
  The three \<open>except\<close> clauses around the processing of one file, in their order:
  \<open>ConnectionError\<close>, then \<open>IOError\<close> (which is \<open>OSError\<close>), then \<open>Exception\<close>.  Each
  edits the status message and then counts the file as failed; an exception of that edit
  leaves the loop.  (The download never delivers its \<open>ConnectionError\<close>, see above, but the
  clause is there.)
\<close>

fun handler_notice :: "string \<Rightarrow> exn \<Rightarrow> notice" where
  "handler_notice file_name ConnectionError = ConnectionErrorNotice file_name"
| "handler_notice file_name IOError = FileSystemErrorNotice file_name"
| "handler_notice file_name OSError = FileSystemErrorNotice file_name"
| "handler_notice file_name err = UnexpectedErrorNotice file_name err"

definition on_error ::
  "env \<Rightarrow> string \<Rightarrow> exn \<Rightarrow> nat \<times> nat \<Rightarrow> world \<Rightarrow> world \<times> (exn + nat \<times> nat)" where
  "on_error e file_name err counters w =
     (case telegram e (EditText (handler_notice file_name err)) w of
        (w1, Inl err') \<Rightarrow> (w1, Inl err')
      | (w1, Inr u) \<Rightarrow> (w1, Inr (fst counters, snd counters + 1)))"

text \<open>
  The caption of an upload: the path in the drive with the size, or the file name when
  that text is longer than 1024 characters.
\<close>

definition upload_caption :: "env \<Rightarrow> item_details \<Rightarrow> string" where
  "upload_caption e file_info =
     (let cap = item_path file_info @ '' ('' @ format_bytes e (item_size file_info) @ '')''
      in if length cap > 1024
         then item_name file_info @ '' ('' @ format_bytes e (item_size file_info)
                @ '') (Path too long)''
         else cap)"

text \<open>
  The steps after a download has returned a path (the test of the downloaded file and the
  upload).  They use \<open>os.path.exists\<close>, \<open>os.path.getsize\<close> and \<open>os.remove\<close>; the first
  expression evaluated needs the name \<open>os\<close>, whichever way the test goes.  The pair of
  counters is (successful uploads, failed uploads).
\<close>

definition after_download ::
  "config \<Rightarrow> env \<Rightarrow> string list \<Rightarrow> int \<Rightarrow> item_details \<Rightarrow> string \<Rightarrow> nat \<times> nat \<Rightarrow> world
     \<Rightarrow> world \<times> (exn + nat \<times> nat)" where
  "after_download cfg e globals chat_id file_info downloaded_file_path counters w =
     (let file_name = item_name file_info;
          file_size = item_size file_info;
          upload =
            (case upload_to_telegram cfg e chat_id downloaded_file_path
                    (upload_caption e file_info) file_name w of
               (w1, Inl err) \<Rightarrow> (w1, Inl err)
             | (w1, Inr upload_success) \<Rightarrow>
                 if upload_success then (w1, Inr (fst counters + 1, snd counters))
                 else (w1, Inr (fst counters, snd counters + 1)))
      in
      if ''os'' \<notin> set globals then (w, Inl (NameError ''os''))
      else if downloaded_file_path = [] \<or> files w downloaded_file_path = None
              \<or> (files w downloaded_file_path = Some 0 \<and> file_size > 0)
      then
        (if files w downloaded_file_path = None \<and> file_size > 0
         then (case telegram e (EditText (DownloadMissingNotice file_name)) w of
                 (w1, Inl err) \<Rightarrow> (w1, Inl err)
               | (w1, Inr u) \<Rightarrow> (w1, Inr (fst counters, snd counters + 1)))
         else if files w downloaded_file_path = Some 0 \<and> file_size > 0
         then (case telegram e (EditText (DownloadEmptyNotice file_name file_size)) w of
                 (w1, Inl err) \<Rightarrow> (w1, Inl err)
               | (w1, Inr u) \<Rightarrow>
                   (case os_remove e downloaded_file_path w1 of
                      (w2, Inl err) \<Rightarrow> (w2, Inl err)
                    | (w2, Inr u') \<Rightarrow> (w2, Inr (fst counters, snd counters + 1))))
         else upload)
      else upload)"

text \<open>
  The \<open>try\<close> block for one file: the login gate for large files, the note for workspace
  documents, the download, and the steps after it.
\<close>

definition try_block ::
  "config \<Rightarrow> env \<Rightarrow> string list \<Rightarrow> credentials option \<Rightarrow> int \<Rightarrow> item_details \<Rightarrow> nat \<times> nat
     \<Rightarrow> world \<Rightarrow> world \<times> (exn + nat \<times> nat)" where
  "try_block cfg e globals creds chat_id file_info counters w =
     (let file_name = item_name file_info;
          file_size = item_size file_info
      in
      if file_size > LARGE_FILE_THRESHOLD_BYTES cfg \<and> creds = None
      then (case telegram e (EditText (LoginRequiredNotice file_name file_size
                       (LARGE_FILE_THRESHOLD_BYTES cfg))) w of
              (w1, Inl err) \<Rightarrow> (w1, Inl err)
            | (w1, Inr u) \<Rightarrow> (w1, Inr (fst counters, snd counters + 1)))
      else
        (case (if contains ''google-apps'' (item_mimeType file_info) \<and> file_size = 0
               then telegram e (EditText (WorkspaceDocNotice file_name)) w
               else (w, Inr ())) of
           (w1, Inl err) \<Rightarrow> (w1, Inl err)
         | (w1, Inr u) \<Rightarrow>
             (case download_gdrive_file cfg e (item_id file_info) file_name file_size w1 of
                (w2, Inl err) \<Rightarrow> (w2, Inl err)
              | (w2, Inr downloaded_file_path) \<Rightarrow>
                  after_download cfg e globals chat_id file_info downloaded_file_path
                    counters w2)))"

text \<open>
  One round of the \<open>for\<close> loop: the message that announces the file is sent before the
  \<open>try\<close>, so an exception of it leaves the loop; an exception of the \<open>try\<close> block goes to
  the handlers.
\<close>

definition process_file ::
  "config \<Rightarrow> env \<Rightarrow> string list \<Rightarrow> credentials option \<Rightarrow> int \<Rightarrow> item_details \<Rightarrow> nat \<times> nat
     \<Rightarrow> world \<Rightarrow> world \<times> (exn + nat \<times> nat)" where
  "process_file cfg e globals creds chat_id file_info counters w =
     (case telegram e (SendMessage chat_id (PreparingNotice (item_name file_info))) w of
        (w0, Inl err) \<Rightarrow> (w0, Inl err)
      | (w0, Inr u) \<Rightarrow>
          (case try_block cfg e globals creds chat_id file_info counters w0 of
             (w1, Inr counters') \<Rightarrow> (w1, Inr counters')
           | (w1, Inl err) \<Rightarrow> on_error e (item_name file_info) err counters w1))"

fun transfer_loop ::
  "config \<Rightarrow> env \<Rightarrow> string list \<Rightarrow> credentials option \<Rightarrow> int \<Rightarrow> item_details list \<Rightarrow> nat \<times> nat
     \<Rightarrow> world \<Rightarrow> world \<times> (exn + nat \<times> nat)" where
  "transfer_loop cfg e globals creds chat_id [] counters w = (w, Inr counters)"
| "transfer_loop cfg e globals creds chat_id (file_info # rest) counters w =
     (case process_file cfg e globals creds chat_id file_info counters w of
        (w1, Inl err) \<Rightarrow> (w1, Inl err)
      | (w1, Inr counters') \<Rightarrow> transfer_loop cfg e globals creds chat_id rest counters' w1)"

text \<open>
  The job for a non-empty list of files, as \<open>handle_message\<close> runs it: the status message
  with the number of files, both counters at zero, the loop, and the summary message.  The
  program is \<open>run_job\<close> with the namespace \<open>main_globals\<close>.
\<close>

definition run_job ::
  "config \<Rightarrow> env \<Rightarrow> string list \<Rightarrow> credentials option \<Rightarrow> int \<Rightarrow> item_details list \<Rightarrow> world
     \<Rightarrow> world \<times> (exn + nat \<times> nat)" where
  "run_job cfg e globals creds chat_id files_to_process w =
     (case telegram e (EditText (FoundNotice (length files_to_process))) w of
        (w0, Inl err) \<Rightarrow> (w0, Inl err)
      | (w0, Inr u) \<Rightarrow>
          (case transfer_loop cfg e globals creds chat_id files_to_process (0, 0) w0 of
             (w1, Inl err) \<Rightarrow> (w1, Inl err)
           | (w1, Inr (successful_uploads, failed_uploads)) \<Rightarrow>
               (case telegram e (SendMessage chat_id
                        (SummaryNotice successful_uploads failed_uploads)) w1 of
                  (w2, Inl err) \<Rightarrow> (w2, Inl err)
                | (w2, Inr u') \<Rightarrow> (w2, Inr (successful_uploads, failed_uploads)))))"


subsection \<open>Counting and completion of the loop\<close>

text \<open>One round adds one to exactly one of the two counters.\<close>

definition once :: "nat \<times> nat \<Rightarrow> nat \<times> nat \<Rightarrow> bool" where
  "once c c' \<longleftrightarrow> c' = (fst c + 1, snd c) \<or> c' = (fst c, snd c + 1)"

text \<open>The requests that move file content: a chunk of a download, an upload.\<close>

definition transfer_event :: "event \<Rightarrow> bool" where
  "transfer_event ev =
     (case ev of NextChunk i \<Rightarrow> True | SendDocument c p n k \<Rightarrow> True | _ \<Rightarrow> False)"

definition never_raises :: "env \<Rightarrow> bool" where
  "never_raises e \<longleftrightarrow> (\<forall>n. \<not> telegram_raises e n)"

lemma after_download_once:
  assumes "after_download cfg e globals chat_id file_info p counters w = (w', Inr c')"
  shows "once counters c'"
  using assms
  by (auto simp: after_download_def once_def Let_def
        split: if_splits prod.splits sum.splits)

lemma try_block_once:
  assumes "try_block cfg e globals creds chat_id file_info counters w = (w', Inr c')"
  shows "once counters c'"
  using assms
  by (auto simp: try_block_def Let_def once_def dest!: after_download_once
        split: if_splits prod.splits sum.splits)

lemma on_error_once:
  assumes "on_error e nm err counters w = (w', Inr c')"
  shows "once counters c'"
  using assms
  by (auto simp: on_error_def once_def split: prod.splits sum.splits)

lemma process_file_once:
  assumes "process_file cfg e globals creds chat_id file_info counters w = (w', Inr c')"
  shows "once counters c'"
  using assms
  by (auto simp: process_file_def dest: try_block_once on_error_once
        split: prod.splits sum.splits)

lemma transfer_loop_total:
  "transfer_loop cfg e globals creds chat_id fs counters w = (w', Inr c')
     \<Longrightarrow> fst c' + snd c' = fst counters + snd counters + length fs"
proof (induction fs arbitrary: counters w)
  case Nil
  then show ?case by simp
next
  case (Cons file_info rest)
  from Cons.prems obtain w1 c1 where
    step: "process_file cfg e globals creds chat_id file_info counters w = (w1, Inr c1)"
    and rest: "transfer_loop cfg e globals creds chat_id rest c1 w1 = (w', Inr c')"
    by (auto split: prod.splits sum.splits)
  from process_file_once [OF step] have "fst c1 + snd c1 = fst counters + snd counters + 1"
    by (auto simp: once_def)
  with Cons.IH [OF rest] show ?case by simp
qed

text \<open>
  The loop is left early only by an exception of a Telegram request (of the message that
  announces a file, or of the edit inside an \<open>except\<close> clause): when no Telegram request
  raises, every round ends with counters and the loop completes.
\<close>

lemma process_file_completes:
  assumes "never_raises e"
  shows "\<exists>w' c'. process_file cfg e globals creds chat_id file_info counters w = (w', Inr c')"
proof -
  from assms have q: "\<And>n. telegram_raises e n = False" by (simp add: never_raises_def)
  obtain w1 r where t: "try_block cfg e globals creds chat_id file_info counters
           (w\<lparr>trace := trace w @ [SendMessage chat_id (PreparingNotice (item_name file_info))]\<rparr>)
           = (w1, r)"
    by fastforce
  show ?thesis
    by (cases r) (simp_all add: process_file_def telegram_def q t on_error_def)
qed

lemma transfer_loop_completes:
  assumes "never_raises e"
  shows "\<exists>w' c'. transfer_loop cfg e globals creds chat_id fs counters w = (w', Inr c')"
proof (induction fs arbitrary: counters w)
  case Nil
  show ?case by simp
next
  case (Cons file_info rest)
  from process_file_completes [OF assms] obtain w1 c1 where
    "process_file cfg e globals creds chat_id file_info counters w = (w1, Inr c1)" by blast
  with Cons.IH [of c1 w1] show ?case by simp
qed

text \<open>
  In \<open>main.py\<close> the name \<open>os\<close> is not bound, so the steps after a download end with a
  \<open>NameError\<close> before anything else happens: no job reaches \<open>upload_to_telegram\<close>.
\<close>

lemma os_unbound: "''os'' \<notin> set main_globals"
  by (simp add: main_globals_def)

lemma after_download_main:
  "after_download cfg e main_globals chat_id file_info p counters w = (w, Inl (NameError ''os''))"
  by (simp add: after_download_def os_unbound Let_def)

subsection \<open>Concrete surroundings for the scenarios\<close>

text \<open>
  An environment in which no Telegram request raises and no removal fails, every media
  stream delivers \<open>n\<close> bytes in one chunk, and \<open>str.isalnum\<close> is given on the ASCII
  characters, which are all that the names of the scenarios use; local storage given by a list of paths
  with sizes and an empty trace; the credentials of a user who is logged in; a binary file
  of \<open>n\<close> bytes in the drive.
\<close>

definition ascii_isalnum :: "string \<Rightarrow> bool" where
  "ascii_isalnum c \<longleftrightarrow>
     c \<in> set (map (\<lambda>x. [x])
                ''abcdefghijklmnopqrstuvwxyzABCDEFGHIJKLMNOPQRSTUVWXYZ0123456789'')"

definition quiet_env :: "nat \<Rightarrow> env" where
  "quiet_env n =
     \<lparr> telegram_raises = (\<lambda>k. False), remove_raises = (\<lambda>p. False),
       stream = (\<lambda>i. (Data n, [])), isalnum = ascii_isalnum,
       format_bytes = (\<lambda>k. ''some bytes'') \<rparr>"

lemma quiet_env_fields:
  "telegram_raises (quiet_env n) k = False"
  "remove_raises (quiet_env n) p = False"
  "stream (quiet_env n) i = (Data n, [])"
  by (simp_all add: quiet_env_def)

lemma safe_names:
  "safe_file_name (quiet_env n) ''F7'' ''big.bin'' = ''big.bin''"
  "safe_file_name (quiet_env n) ''F8'' ''notes.txt'' = ''notes.txt''"
  "safe_file_name (quiet_env n) ''F9'' ''empty.txt'' = ''empty.txt''"
  by (simp_all add: safe_file_name_def quiet_env_def ascii_isalnum_def continuation_def)

text \<open>
  A name beyond ASCII: the letter e with acute accent (bytes C3 A9), the multiplication
  sign (bytes C3 97) and \<open>.txt\<close>.  Where \<open>str.isalnum\<close> accepts the letter and not the
  sign, the letter stays and the sign becomes one underscore.
\<close>

lemma safe_file_name_keeps_letters:
  "safe_file_name (quiet_env 0\<lparr>isalnum := (\<lambda>c. c = [CHR 0xC3, CHR 0xA9] \<or> ascii_isalnum c)\<rparr>)
     ''F'' ([CHR 0xC3, CHR 0xA9, CHR 0xC3, CHR 0x97] @ ''.txt'') =
   [CHR 0xC3, CHR 0xA9] @ ''_.txt''"
  by (simp add: safe_file_name_def quiet_env_def ascii_isalnum_def continuation_def)

definition scratch_world :: "(string \<times> nat) list \<Rightarrow> world" where
  "scratch_world fs = \<lparr> files = map_of fs, trace = [] \<rparr>"

definition logged_in :: "credentials option" where
  "logged_in =
     Some \<lparr> token = ''access'', refresh_token = Some ''refresh'',
            token_uri = ''https://oauth2.googleapis.com/token'', client_id = ''client'',
            client_secret = ''secret'',
            scopes = [''https://www.googleapis.com/auth/drive.readonly''],
            expiry = None \<rparr>"

definition big_item :: "nat \<Rightarrow> item_details" where
  "big_item n =
     \<lparr> item_id = ''F7'', item_name = ''big.bin'', item_mimeType = ''application/octet-stream'',
       item_size = n, item_path = ''big.bin'', is_folder = False \<rparr>"

subsection \<open>Claims about the orchestrator's loop\<close>

text \<open>
  Claim C5 (login gate).  Take a file whose declared size exceeds the large-file threshold,
  and no credentials.  Whatever the environment does, the round for this file leaves local
  storage as it was and issues neither a chunk request of a download nor an upload; it ends
  with the file counted once as failed, or else with an exception of a Telegram request
  that ends the job.  If the message announcing the file goes through, the edit that tells
  the user to log in is issued; and if that edit goes through too, the round is exactly
  these two requests and the file is counted as failed.
\<close>

theorem large_file_without_login_skipped:
  assumes "item_size file_info > LARGE_FILE_THRESHOLD_BYTES cfg"
      and "process_file cfg e globals None chat_id file_info (s, f) w = (w', r)"
  shows "files w' = files w
       \<and> filter transfer_event (trace w') = filter transfer_event (trace w)
       \<and> (r = Inr (s, f + 1) \<or> r = Inl TelegramError)
       \<and> (\<not> telegram_raises e (length (trace w)) \<longrightarrow>
            EditText (LoginRequiredNotice (item_name file_info) (item_size file_info)
                          (LARGE_FILE_THRESHOLD_BYTES cfg)) \<in> set (trace w'))
       \<and> (\<not> telegram_raises e (length (trace w)) \<and> \<not> telegram_raises e (length (trace w) + 1)
            \<longrightarrow> r = Inr (s, f + 1) \<and> trace w' = trace w @
              [SendMessage chat_id (PreparingNotice (item_name file_info)),
               EditText (LoginRequiredNotice (item_name file_info) (item_size file_info)
                          (LARGE_FILE_THRESHOLD_BYTES cfg))])"
  using assms
  by (auto simp: process_file_def try_block_def telegram_def on_error_def Let_def
        transfer_event_def split: if_splits)

text \<open>
  The scenario of the specification: threshold 50 MiB, a file of declared size 100 MiB,
  no stored credential.
\<close>

theorem large_file_without_login_skipped_witness:
  "item_size (big_item (100 * 1024 * 1024)) > LARGE_FILE_THRESHOLD_BYTES default_config
   \<and> files (fst (process_file default_config (quiet_env 0) main_globals None 1
                    (big_item (100 * 1024 * 1024)) (0, 0) (scratch_world [])))
       = files (scratch_world [])
   \<and> trace (fst (process_file default_config (quiet_env 0) main_globals None 1
                    (big_item (100 * 1024 * 1024)) (0, 0) (scratch_world []))) =
       [SendMessage 1 (PreparingNotice ''big.bin''),
        EditText (LoginRequiredNotice ''big.bin'' (100 * 1024 * 1024) (50 * 1024 * 1024))]
   \<and> snd (process_file default_config (quiet_env 0) main_globals None 1
                    (big_item (100 * 1024 * 1024)) (0, 0) (scratch_world [])) = Inr (0, 1)"
proof -
  have h1: "item_size (big_item (100 * 1024 * 1024)) > LARGE_FILE_THRESHOLD_BYTES default_config"
    by (simp add: big_item_def default_config_def)
  have q: "\<not> telegram_raises (quiet_env 0) n" for n by (simp add: quiet_env_def)
  have v: "item_name (big_item (100 * 1024 * 1024)) = ''big.bin''"
     "item_size (big_item (100 * 1024 * 1024)) = 100 * 1024 * 1024"
     "LARGE_FILE_THRESHOLD_BYTES default_config = 50 * 1024 * 1024"
     "trace (scratch_world []) = []"
    by (simp_all add: big_item_def default_config_def scratch_world_def)
  from large_file_without_login_skipped [OF h1 prod.collapse [symmetric],
         of "quiet_env 0" main_globals 1 0 0 "scratch_world []"] q h1
  show ?thesis unfolding v by simp
qed


definition small_item :: item_details where
  "small_item =
     \<lparr> item_id = ''F8'', item_name = ''notes.txt'', item_mimeType = ''text/plain'',
       item_size = 20, item_path = ''docs/notes.txt'', is_folder = False \<rparr>"

text \<open>
  A job of two files without credentials: the first is stopped by the login gate, the
  second is downloaded and then fails in the steps after the download.
\<close>

lemma demo_loop:
  "snd (transfer_loop default_config (quiet_env 20) main_globals None 1
          [big_item (100 * 1024 * 1024), small_item] (0, 0)
          (scratch_world []\<lparr>trace := [EditText (FoundNotice 2)]\<rparr>)) = Inr (0, 2)"
  "trace (fst (transfer_loop default_config (quiet_env 20) main_globals None 1
          [big_item (100 * 1024 * 1024), small_item] (0, 0)
          (scratch_world []\<lparr>trace := [EditText (FoundNotice 2)]\<rparr>))) =
     [EditText (FoundNotice 2),
      SendMessage 1 (PreparingNotice ''big.bin''),
      EditText (LoginRequiredNotice ''big.bin'' (100 * 1024 * 1024) (50 * 1024 * 1024)),
      SendMessage 1 (PreparingNotice ''notes.txt''),
      NextChunk ''F8'',
      EditText (UnexpectedErrorNotice ''notes.txt'' (NameError ''os''))]"
  by (simp_all add: process_file_def try_block_def telegram_def on_error_def Let_def
        after_download_main download_gdrive_file_def scratch_path_def safe_names
        quiet_env_fields scratch_world_def big_item_def small_item_def default_config_def)

text \<open>
  Claim C10 (summary and counters).  When the status message has been edited and the loop
  over the files completes with the counters \<open>s\<close> (successful uploads) and \<open>f\<close> (failed
  uploads), then \<open>s + f\<close> is the number of files, and the job issues the summary message
  with these two counts right after the loop.  This holds for every namespace of the
  module, so for each path of a round: login gate, missing or empty download, upload
  succeeded, upload failed, exception handled.  (Lemma \<open>process_file_once\<close> is the step for
  one file, lemma \<open>transfer_loop_completes\<close> says when the loop completes.)
\<close>

theorem job_summary_counts:
  assumes "telegram e (EditText (FoundNotice (length files_to_process))) w = (w0, Inr ())"
      and "transfer_loop cfg e globals creds chat_id files_to_process (0, 0) w0 = (w1, Inr (s, f))"
  shows "s + f = length files_to_process
       \<and> trace (fst (run_job cfg e globals creds chat_id files_to_process w)) =
           trace w1 @ [SendMessage chat_id (SummaryNotice s f)]"
proof -
  from transfer_loop_total [OF assms(2)] have "s + f = length files_to_process" by simp
  moreover have "trace (fst (run_job cfg e globals creds chat_id files_to_process w)) =
           trace w1 @ [SendMessage chat_id (SummaryNotice s f)]"
    using assms by (simp add: run_job_def telegram_def split: prod.splits)
  ultimately show ?thesis by simp
qed

theorem job_summary_counts_witness:
  "telegram (quiet_env 20)
      (EditText (FoundNotice (length [big_item (100 * 1024 * 1024), small_item])))
      (scratch_world []) = (scratch_world []\<lparr>trace := [EditText (FoundNotice 2)]\<rparr>, Inr ())
   \<and> snd (transfer_loop default_config (quiet_env 20) main_globals None 1
          [big_item (100 * 1024 * 1024), small_item] (0, 0)
          (scratch_world []\<lparr>trace := [EditText (FoundNotice 2)]\<rparr>)) = Inr (0, 2)
   \<and> (0::nat) + 2 = length [big_item (100 * 1024 * 1024), small_item]
   \<and> trace (fst (run_job default_config (quiet_env 20) main_globals None 1
                    [big_item (100 * 1024 * 1024), small_item] (scratch_world []))) =
     [EditText (FoundNotice 2),
      SendMessage 1 (PreparingNotice ''big.bin''),
      EditText (LoginRequiredNotice ''big.bin'' (100 * 1024 * 1024) (50 * 1024 * 1024)),
      SendMessage 1 (PreparingNotice ''notes.txt''),
      NextChunk ''F8'',
      EditText (UnexpectedErrorNotice ''notes.txt'' (NameError ''os'')),
      SendMessage 1 (SummaryNotice 0 2)]"
proof -
  have h1: "telegram (quiet_env 20)
      (EditText (FoundNotice (length [big_item (100 * 1024 * 1024), small_item])))
      (scratch_world []) = (scratch_world []\<lparr>trace := [EditText (FoundNotice 2)]\<rparr>, Inr ())"
    by (simp add: telegram_def quiet_env_def scratch_world_def)
  have h2: "transfer_loop default_config (quiet_env 20) main_globals None 1
          [big_item (100 * 1024 * 1024), small_item] (0, 0)
          (scratch_world []\<lparr>trace := [EditText (FoundNotice 2)]\<rparr>) =
       (fst (transfer_loop default_config (quiet_env 20) main_globals None 1
          [big_item (100 * 1024 * 1024), small_item] (0, 0)
          (scratch_world []\<lparr>trace := [EditText (FoundNotice 2)]\<rparr>)), Inr (0, 2))"
    using demo_loop(1) by (simp add: prod_eq_iff)
  from job_summary_counts [OF h1 h2] h1 demo_loop show ?thesis by simp
qed


subsection \<open>Claims about the transfer engine\<close>

text \<open>
  On the paths through its \<open>try\<close> statement \<open>upload_to_telegram\<close> removes the local file,
  unless the removal itself fails.
\<close>

lemma upload_within_limit_removes:
  assumes "files w file_path = Some n" and "n \<le> MAX_FILE_SIZE_TG_BYTES cfg"
      and "\<not> remove_raises e file_path"
  shows "files (fst (upload_to_telegram cfg e chat_id file_path caption nm w)) file_path = None"
  using assms
  by (simp add: upload_to_telegram_def telegram_def os_remove_def Let_def
        split: prod.splits sum.splits)

text \<open>
  Called on a file above the limit, \<open>upload_to_telegram\<close> sends the notice that names the
  limit and no document.
\<close>

lemma upload_too_large:
  assumes "files w file_path = Some n" and "n > MAX_FILE_SIZE_TG_BYTES cfg"
  shows "trace (fst (upload_to_telegram cfg e chat_id file_path caption nm w)) =
           trace w @ [SendMessage chat_id (TooLargeNotice nm n (MAX_FILE_SIZE_TG_BYTES cfg))]
       \<and> (snd (upload_to_telegram cfg e chat_id file_path caption nm w) = Inr False
           \<or> snd (upload_to_telegram cfg e chat_id file_path caption nm w) = Inl TelegramError)"
  using assms
  by (simp add: upload_to_telegram_def telegram_def)

text \<open>
  Claim C2 (cleanup on every exit path) does not hold of the code.  A local file of
  2000 MiB + 1 byte is above the default limit: \<open>upload_to_telegram\<close> sends the notice,
  returns \<open>False\<close>, and the local file is still there with its full size.
\<close>

theorem upload_too_large_keeps_file:
  "files (scratch_world [(''downloads/big.bin'', 2097152001)]) ''downloads/big.bin''
       = Some 2097152001
   \<and> snd (upload_to_telegram default_config (quiet_env 0) 1 ''downloads/big.bin''
            ''big.bin (some bytes)'' ''big.bin''
            (scratch_world [(''downloads/big.bin'', 2097152001)])) = Inr False
   \<and> trace (fst (upload_to_telegram default_config (quiet_env 0) 1 ''downloads/big.bin''
            ''big.bin (some bytes)'' ''big.bin''
            (scratch_world [(''downloads/big.bin'', 2097152001)]))) =
       [SendMessage 1 (TooLargeNotice ''big.bin'' 2097152001 2097152000)]
   \<and> files (fst (upload_to_telegram default_config (quiet_env 0) 1 ''downloads/big.bin''
            ''big.bin (some bytes)'' ''big.bin''
            (scratch_world [(''downloads/big.bin'', 2097152001)]))) ''downloads/big.bin''
       = Some 2097152001"
  by (simp add: upload_to_telegram_def default_config_def quiet_env_def scratch_world_def
        telegram_def)

text \<open>
  Claim C6 (files above the destination limit) does not hold of the code.  A job of one
  file of 2000 MiB + 1 byte, for a user who is logged in, in an environment where
  nothing fails: the file is downloaded, then the steps after the download raise
  \<open>NameError\<close> for \<open>os\<close>.  The job counts the file as failed and sends no document, but the
  user is shown an unexpected error, not the limit that was hit, and the downloaded file
  stays in local storage.
\<close>

theorem oversized_file_job_reports_name_error:
  "item_size (big_item 2097152001) > MAX_FILE_SIZE_TG_BYTES default_config
   \<and> snd (run_job default_config (quiet_env 2097152001) main_globals logged_in 1
            [big_item 2097152001] (scratch_world [])) = Inr (0, 1)
   \<and> trace (fst (run_job default_config (quiet_env 2097152001) main_globals
                    logged_in 1 [big_item 2097152001] (scratch_world []))) =
       [EditText (FoundNotice 1),
        SendMessage 1 (PreparingNotice ''big.bin''),
        NextChunk ''F7'',
        EditText (UnexpectedErrorNotice ''big.bin'' (NameError ''os'')),
        SendMessage 1 (SummaryNotice 0 1)]
   \<and> files (fst (run_job default_config (quiet_env 2097152001) main_globals
                    logged_in 1 [big_item 2097152001] (scratch_world [])))
         ''downloads/big.bin'' = Some 2097152001"
  by (simp add: run_job_def process_file_def try_block_def telegram_def on_error_def Let_def
        after_download_main download_gdrive_file_def scratch_path_def safe_names
        quiet_env_fields scratch_world_def big_item_def default_config_def logged_in_def)







section \<open>Serialization of handlers (main.py, entry of handle\_message)\<close>

text \<open>
  \<open>user_processing_locks\<close> maps a chat id to a lock.  \<open>handle_message\<close> creates the lock of
  the message's chat when there is none; if that lock is held it replies that it is busy
  and returns; otherwise it acquires the lock and runs its body inside \<open>async with\<close>.  No
  \<open>await\<close> stands between the test and the acquisition of a free lock, so the entry is one
  step; the lock is released when the body is left, by return or by exception.  Handlers
  of different messages interleave at their \<open>await\<close>s, which the model renders as a
  sequence of steps: \<open>Deliver user chat\<close> is the entry of the handler for a message of
  \<open>user\<close> in \<open>chat\<close>, \<open>Leave user chat\<close> is the exit of a handler from its body.
  \<open>active\<close> lists the handlers inside their body, as pairs (chat id, user id).
\<close>

record session =
  user_processing_locks :: "int \<Rightarrow> bool option"
  active :: "(int \<times> int) list"
  busy_replies :: "(int \<times> int) list"

datatype step = Deliver int int | Leave int int

definition deliver :: "int \<Rightarrow> int \<Rightarrow> session \<Rightarrow> session" where
  "deliver user_id chat_id s =
     (let locks = (if user_processing_locks s chat_id = None
                   then (user_processing_locks s)(chat_id \<mapsto> False)
                   else user_processing_locks s)
      in if locks chat_id = Some True
         then s\<lparr>user_processing_locks := locks,
                busy_replies := busy_replies s @ [(chat_id, user_id)]\<rparr>
         else s\<lparr>user_processing_locks := locks(chat_id \<mapsto> True),
                active := active s @ [(chat_id, user_id)]\<rparr>)"

definition leave :: "int \<Rightarrow> int \<Rightarrow> session \<Rightarrow> session" where
  "leave user_id chat_id s =
     (if (chat_id, user_id) \<in> set (active s)
      then s\<lparr>user_processing_locks := (user_processing_locks s)(chat_id \<mapsto> False),
             active := remove1 (chat_id, user_id) (active s)\<rparr>
      else s)"

fun run :: "step list \<Rightarrow> session \<Rightarrow> session" where
  "run [] s = s"
| "run (Deliver u c # steps) s = run steps (deliver u c s)"
| "run (Leave u c # steps) s = run steps (leave u c s)"

definition idle :: session where
  "idle = \<lparr> user_processing_locks = (\<lambda>c. None), active = [], busy_replies = [] \<rparr>"

text \<open>The lock of a chat is held exactly while one handler of that chat is in its body.\<close>

definition lock_inv :: "session \<Rightarrow> bool" where
  "lock_inv s \<longleftrightarrow>
     distinct (map fst (active s)) \<and>
     (\<forall>c. user_processing_locks s c = Some True \<longleftrightarrow> c \<in> fst ` set (active s))"

lemma lock_inv_idle: "lock_inv idle"
  by (simp add: lock_inv_def idle_def)

lemma lock_inv_deliver:
  assumes "lock_inv s"
  shows "lock_inv (deliver u c s)"
proof -
  from assms have d: "distinct (map fst (active s))"
    and l: "\<And>x. user_processing_locks s x = Some True \<longleftrightarrow> x \<in> fst ` set (active s)"
    by (simp_all add: lock_inv_def)
  show ?thesis
  proof (cases "user_processing_locks s c = Some True")
    case True
    then have "deliver u c s = s\<lparr>busy_replies := busy_replies s @ [(c, u)]\<rparr>"
      by (simp add: deliver_def Let_def)
    with assms show ?thesis
      by (simp add: lock_inv_def)
  next
    case False
    with l [of c] have "c \<notin> fst ` set (active s)" by simp
    with False d l show ?thesis
      by (auto simp: lock_inv_def deliver_def Let_def)
  qed
qed

lemma fst_remove1:
  "distinct (map fst xs) \<Longrightarrow> (c, u) \<in> set xs \<Longrightarrow>
     fst ` set (remove1 (c, u) xs) = fst ` set xs - {c}"
  by (induction xs) (auto simp: image_iff)

lemma distinct_fst_remove1: "distinct (map fst xs) \<Longrightarrow> distinct (map fst (remove1 x xs))"
  by (induction xs) (auto simp: image_iff dest: notin_set_remove1)

lemma lock_inv_leave: "lock_inv s \<Longrightarrow> lock_inv (leave u c s)"
  by (auto simp: lock_inv_def leave_def fst_remove1 distinct_fst_remove1)

lemma lock_inv_run: "lock_inv s \<Longrightarrow> lock_inv (run steps s)"
  by (induction steps s rule: run.induct) (simp_all add: lock_inv_deliver lock_inv_leave)

text \<open>
  A step in a private chat: there the chat id is the user id.  When every step is in a
  private chat, the handlers in their body are told apart by their users as well.
\<close>

definition in_private_chat :: "step \<Rightarrow> bool" where
  "in_private_chat st = (case st of Deliver u c \<Rightarrow> c = u | Leave u c \<Rightarrow> c = u)"

lemma list_all_remove1: "list_all P xs \<Longrightarrow> list_all P (remove1 x xs)"
  by (induction xs) auto

lemma private_active:
  "list_all in_private_chat steps \<Longrightarrow> list_all (\<lambda>p. fst p = snd p) (active s)
     \<Longrightarrow> list_all (\<lambda>p. fst p = snd p) (active (run steps s))"
proof (induction steps s rule: run.induct)
  case (1 s)
  then show ?case by simp
next
  case (2 u c steps s)
  then have "list_all (\<lambda>p. fst p = snd p) (active (deliver u c s))"
    by (simp add: deliver_def Let_def in_private_chat_def)
  with 2 show ?case by simp
next
  case (3 u c steps s)
  then have "list_all (\<lambda>p. fst p = snd p) (active (leave u c s))"
    by (simp add: leave_def list_all_remove1)
  with 3 show ?case by simp
qed

lemma private_users:
  assumes "list_all in_private_chat steps"
  shows "map snd (active (run steps idle)) = map fst (active (run steps idle))"
proof -
  have "list_all (\<lambda>p. fst p = snd p) (active (run steps idle))"
    using assms by (rule private_active) (simp add: idle_def)
  then show ?thesis by (induction "active (run steps idle)") (auto simp: list_all_iff)
qed

text \<open>
  What the lock does ensure, being keyed by the chat id.  In every session reached from
  the idle one, at most one handler per chat is in its body; a message delivered in a chat
  whose handler is still in its body is answered as busy and starts nothing; a message
  delivered in a chat without such a handler is accepted and its handler enters the body;
  and once the handler of a chat has left, that chat has no handler in its body, so the
  next message there is accepted.  When all messages are in private chats, at most one
  handler per user is in its body.
\<close>

lemma lock_serializes_chat:
  assumes "s = run steps idle"
  shows "distinct (map fst (active s))
       \<and> (c \<in> set (map fst (active s)) \<longrightarrow>
            active (deliver u c s) = active s
            \<and> busy_replies (deliver u c s) = busy_replies s @ [(c, u)])
       \<and> (c \<notin> set (map fst (active s)) \<longrightarrow>
            active (deliver u c s) = active s @ [(c, u)]
            \<and> busy_replies (deliver u c s) = busy_replies s)
       \<and> ((c, u) \<in> set (active s) \<longrightarrow> c \<notin> set (map fst (active (leave u c s))))
       \<and> (list_all in_private_chat steps \<longrightarrow> distinct (map snd (active s)))"
proof -
  from assms have inv: "lock_inv s" by (simp add: lock_inv_run lock_inv_idle)
  then have d: "distinct (map fst (active s))"
    and l: "\<And>c. user_processing_locks s c = Some True \<longleftrightarrow> c \<in> fst ` set (active s)"
    by (simp_all add: lock_inv_def)
  have a: "c \<in> set (map fst (active s)) \<longrightarrow>
            active (deliver u c s) = active s
            \<and> busy_replies (deliver u c s) = busy_replies s @ [(c, u)]"
    using l [of c] by (auto simp: deliver_def Let_def)
  have b: "c \<notin> set (map fst (active s)) \<longrightarrow>
            active (deliver u c s) = active s @ [(c, u)]
            \<and> busy_replies (deliver u c s) = busy_replies s"
    using l [of c] by (auto simp: deliver_def Let_def)
  have e: "(c, u) \<in> set (active s) \<longrightarrow> c \<notin> set (map fst (active (leave u c s)))"
    using d by (auto simp: leave_def fst_remove1)
  have g: "list_all in_private_chat steps \<longrightarrow> distinct (map snd (active s))"
  proof
    assume "list_all in_private_chat steps"
    then have same: "map snd (active s) = map fst (active s)"
      unfolding assms by (rule private_users)
    show "distinct (map snd (active s))"
      unfolding same by (rule d)
  qed
  from d a b e g show ?thesis by blast
qed

text \<open>
  Claim C4 (at most one job per user) does not hold of the code.  The comments of
  \<open>main.py\<close> say that the lock prevents concurrent processing for a single user, by the
  same user; the lock is taken from \<open>user_processing_locks\<close> by the chat id.  User 7 sends a
  link in the private chat 7 and, while it is processed, another one in the group chat
  -1001.  The second message is not answered as busy: two handlers of the same user are in
  their body at once.
\<close>

theorem same_user_two_chats_both_active:
  "active (run [Deliver 7 7, Deliver 7 (-1001)] idle) = [(7, 7), (-1001, 7)]
   \<and> busy_replies (run [Deliver 7 7, Deliver 7 (-1001)] idle) = []
   \<and> \<not> distinct (map snd (active (run [Deliver 7 7, Deliver 7 (-1001)] idle)))"
  by (simp add: deliver_def idle_def Let_def)

end
